theory Spec2Isabelle
  imports Main
begin

section \<open>Python primitives used by periodiq\<close>

text \<open>
  The exceptions that the cron engine of \<^verbatim>\<open>periodiq.py\<close> can raise. The source defines no
  exception class of its own: a failing \<^verbatim>\<open>int()\<close>, a zero \<^verbatim>\<open>range\<close> step and a failing
  \<^verbatim>\<open>first\<close> raise \<^verbatim>\<open>ValueError\<close>, an index past the end of a list raises
  \<^verbatim>\<open>IndexError\<close>, an unknown alias raises \<^verbatim>\<open>KeyError\<close>.
\<close>

datatype error = ValueError | IndexError | KeyError

text \<open>
  Strings are lists of characters, a character being a code point below 256. White space,
  for \<^verbatim>\<open>str.strip\<close> and \<^verbatim>\<open>str.split\<close>, is what \<^verbatim>\<open>str.isspace\<close> accepts there: the
  code points 9 to 13, 28 to 32, 133 (U+0085) and 160 (U+00A0).
\<close>

definition is_space :: "char \<Rightarrow> bool" where
  "is_space c =
     (let n = (of_char c :: nat)
      in (9 \<le> n \<and> n \<le> 13) \<or> (28 \<le> n \<and> n \<le> 32) \<or> n = 133 \<or> n = 160)"

definition is_digit :: "char \<Rightarrow> bool" where
  "is_digit c = (let n = (of_char c :: nat) in 48 \<le> n \<and> n \<le> 57)"

definition digit_val :: "char \<Rightarrow> int" where
  "digit_val c = int (of_char c) - 48"

definition strip :: "string \<Rightarrow> string" where
  "strip s = rev (dropWhile is_space (rev (dropWhile is_space s)))"

definition startswith_at :: "string \<Rightarrow> bool" where
  "startswith_at s = (case s of [] \<Rightarrow> False | c # _ \<Rightarrow> c = CHR ''@'')"

text \<open>\<^verbatim>\<open>str.split()\<close> without argument: the maximal runs of non-space characters.\<close>

fun split_ws :: "string \<Rightarrow> string \<Rightarrow> string list" where
  "split_ws cur [] = (if cur = [] then [] else [cur])"
| "split_ws cur (c # cs) =
     (if is_space c then (if cur = [] then split_ws [] cs else cur # split_ws [] cs)
      else split_ws (cur @ [c]) cs)"

definition split :: "string \<Rightarrow> string list" where
  "split s = split_ws [] s"

text \<open>\<^verbatim>\<open>str.split(sep)\<close> for a one-character separator: empty pieces are kept.\<close>

fun split_on :: "char \<Rightarrow> string \<Rightarrow> string \<Rightarrow> string list" where
  "split_on sep cur [] = [cur]"
| "split_on sep cur (c # cs) =
     (if c = sep then cur # split_on sep [] cs else split_on sep (cur @ [c]) cs)"

text \<open>\<^verbatim>\<open>str.partition(sep)\<close> for a one-character separator.\<close>

definition partition :: "char \<Rightarrow> string \<Rightarrow> string \<times> string \<times> string" where
  "partition sep s =
     (if sep \<in> set s
      then (takeWhile (\<lambda>c. c \<noteq> sep) s, [sep], tl (dropWhile (\<lambda>c. c \<noteq> sep) s))
      else (s, [], []))"

text \<open>
  \<^verbatim>\<open>str.replace(old, new)\<close> for a non-empty \<^verbatim>\<open>old\<close> (every call of the source passes a
  non-empty literal): occurrences are replaced from left to right, without overlap.
\<close>

fun replace_str :: "string \<Rightarrow> string \<Rightarrow> string \<Rightarrow> string" where
  "replace_str old new [] = []"
| "replace_str old new (c # cs) =
     (if old \<noteq> [] \<and> take (length old) (c # cs) = old
      then new @ replace_str old new (drop (length old - 1) cs)
      else c # replace_str old new cs)"

text \<open>
  \<^verbatim>\<open>str.lower\<close>: below 256 the upper-case letters are A to Z and U+00C0 to U+00DE without
  the multiplication sign U+00D7, each 32 below its lower case.
\<close>

definition lower_chr :: "char \<Rightarrow> char" where
  "lower_chr c =
     (let n = (of_char c :: nat)
      in if (65 \<le> n \<and> n \<le> 90) \<or> (192 \<le> n \<and> n \<le> 222 \<and> n \<noteq> 215) then char_of (n + 32)
         else c)"

definition lower :: "string \<Rightarrow> string" where
  "lower s = map lower_chr s"

text \<open>\<^verbatim>\<open>sep.join(parts)\<close>.\<close>

fun join :: "string \<Rightarrow> string list \<Rightarrow> string" where
  "join sep [] = []"
| "join sep [p] = p"
| "join sep (p # q # ps) = p @ sep @ join sep (q # ps)"

text \<open>\<^verbatim>\<open>str(i)\<close> of an integer: decimal digits, with a minus sign when negative.\<close>

fun str_nat :: "nat \<Rightarrow> string" where
  "str_nat n = (if n < 10 then [char_of (48 + n)] else str_nat (n div 10) @ [char_of (48 + n mod 10)])"

definition str_int :: "int \<Rightarrow> string" where
  "str_int i = (if i < 0 then CHR ''-'' # str_nat (nat (- i)) else str_nat (nat i))"

text \<open>
  \<^verbatim>\<open>int(s)\<close> of a string. CPython turns every white space above 127 into a blank and
  then drops, at both ends, the white space of the C locale: the code points 9 to 13 and
  32, so here also 133 and 160, and not 28 to 31. What is left is an optional sign and
  decimal digits, where single underscores may separate digits. The bound that recent
  CPython versions put on the number of digits is not modelled.
\<close>

definition is_int_space :: "char \<Rightarrow> bool" where
  "is_int_space c =
     (let n = (of_char c :: nat) in (9 \<le> n \<and> n \<le> 13) \<or> n = 32 \<or> n = 133 \<or> n = 160)"

fun parse_digits :: "int \<Rightarrow> bool \<Rightarrow> string \<Rightarrow> int option" where
  "parse_digits acc prev [] = (if prev then Some acc else None)"
| "parse_digits acc prev (c # cs) =
     (if is_digit c then parse_digits (acc * 10 + digit_val c) True cs
      else if c = CHR ''_'' \<and> prev then parse_digits acc False cs
      else None)"

definition int_of_str :: "string \<Rightarrow> error + int" where
  "int_of_str s =
     (case rev (dropWhile is_int_space (rev (dropWhile is_int_space s))) of
        [] \<Rightarrow> Inl ValueError
      | c # cs \<Rightarrow>
          (case (if c = CHR ''-'' then map_option uminus (parse_digits 0 False cs)
                 else if c = CHR ''+'' then parse_digits 0 False cs
                 else parse_digits 0 False (c # cs)) of
             None \<Rightarrow> Inl ValueError
           | Some i \<Rightarrow> Inr i))"

text \<open>
  \<^verbatim>\<open>range(start, stop, step)\<close> as a list: a zero step raises \<^verbatim>\<open>ValueError\<close>, and the
  number of elements is the one that CPython computes.
\<close>

definition range :: "int \<Rightarrow> int \<Rightarrow> int \<Rightarrow> error + int list" where
  "range start stop step =
     (if step = 0 then Inl ValueError
      else if 0 < step
      then Inr (map (\<lambda>i. start + int i * step) [0 ..< nat ((stop - start + step - 1) div step)])
      else Inr (map (\<lambda>i. start + int i * step) [0 ..< nat ((start - stop - step - 1) div (- step))]))"

section \<open>Expansion of one cron field\<close>

text \<open>
  The loop of \<^verbatim>\<open>expand_valid\<close> over the comma-separated intervals; \<^verbatim>\<open>valid\<close> is the set
  that the loop grows.
\<close>

fun expand_intervals :: "string list \<Rightarrow> int set \<Rightarrow> error + int set" where
  "expand_intervals [] valid = Inr valid"
| "expand_intervals (interval # rest) valid =
     (case partition CHR ''/'' interval of (rng, _, step) \<Rightarrow>
     (case (if step = [] then Inr 1 else int_of_str step) of Inl e \<Rightarrow> Inl e | Inr step \<Rightarrow>
     (case partition CHR ''-'' rng of (start, _, end) \<Rightarrow>
     (case int_of_str start of Inl e \<Rightarrow> Inl e | Inr start \<Rightarrow>
     (case (if end = [] then Inr start else int_of_str end) of Inl e \<Rightarrow> Inl e | Inr end \<Rightarrow>
     (case range start (end + 1) step of Inl e \<Rightarrow> Inl e | Inr r \<Rightarrow>
        expand_intervals rest (valid \<union> set r)))))))"

text \<open>
  The bounds \<^verbatim>\<open>min\<close> and \<^verbatim>\<open>max\<close> (here \<open>minv\<close> and \<open>maxv\<close>) are only used to spell out
  a star; \<^verbatim>\<open>sorted(valid)\<close> of the set is its sorted list.
\<close>

definition expand_valid :: "string \<Rightarrow> int \<Rightarrow> int \<Rightarrow> error + int list" where
  "expand_valid val minv maxv =
     (let val = replace_str ''*'' (str_int minv @ ''-'' @ str_int maxv) val;
          intervals = split_on CHR '','' [] val
      in case expand_intervals intervals {} of
           Inl e \<Rightarrow> Inl e
         | Inr valid \<Rightarrow> Inr (sorted_list_of_set valid))"

text \<open>
  Subscription \<^verbatim>\<open>xs[i]\<close> of a list: a negative index counts from the end, an index out of
  range raises \<^verbatim>\<open>IndexError\<close>. The slice \<^verbatim>\<open>xs[i:j]\<close> clamps both ends and never raises.
\<close>

definition getitem :: "'a list \<Rightarrow> int \<Rightarrow> error + 'a" where
  "getitem xs i =
     (if 0 \<le> i \<and> i < int (length xs) then Inr (xs ! nat i)
      else if i < 0 \<and> - int (length xs) \<le> i then Inr (xs ! nat (int (length xs) + i))
      else Inl IndexError)"

definition slice_bound :: "int \<Rightarrow> int \<Rightarrow> int" where
  "slice_bound n i = (if i < 0 then max (i + n) 0 else min i n)"

definition slice :: "'a list \<Rightarrow> int \<Rightarrow> int \<Rightarrow> 'a list" where
  "slice xs i j =
     (let n = int (length xs); a = slice_bound n i; b = slice_bound n j
      in take (nat (b - a)) (drop (nat a) xs))"

section \<open>Calendar and timestamps\<close>

text \<open>
  \<^verbatim>\<open>calendar.monthrange(year, month)[1]\<close>, the number of days of a month. Every call of the
  source passes a month between 1 and 12 (the month of a timestamp, or \<^verbatim>\<open>1 + m % 12\<close>), so
  the library's \<^verbatim>\<open>IllegalMonthError\<close> has no branch here.
\<close>

definition isleap :: "int \<Rightarrow> bool" where
  "isleap y = (y mod 4 = 0 \<and> (y mod 100 \<noteq> 0 \<or> y mod 400 = 0))"

definition monthrange :: "int \<Rightarrow> int \<Rightarrow> int" where
  "monthrange y m =
     (if m = 2 then (if isleap y then 29 else 28)
      else if m = 4 \<or> m = 6 \<or> m = 9 \<or> m = 11 then 30 else 31)"

text \<open>
  A timestamp, with the fields of a \<^verbatim>\<open>datetime\<close>. The model has no time zone: it is the
  civil calendar of a zone with a fixed offset, where \<^verbatim>\<open>add\<close> is plain calendar
  arithmetic. Years are unbounded integers; the library's last year 9999 is not modelled.
\<close>

record datetime =
  dt_year :: int
  dt_month :: int
  dt_day :: int
  dt_hour :: int
  dt_minute :: int
  dt_second :: int
  dt_microsecond :: int

definition wf_datetime :: "datetime \<Rightarrow> bool" where
  "wf_datetime d =
     (1 \<le> dt_month d \<and> dt_month d \<le> 12 \<and>
      1 \<le> dt_day d \<and> dt_day d \<le> monthrange (dt_year d) (dt_month d) \<and>
      0 \<le> dt_hour d \<and> dt_hour d < 24 \<and>
      0 \<le> dt_minute d \<and> dt_minute d < 60 \<and>
      0 \<le> dt_second d \<and> dt_second d < 60 \<and>
      0 \<le> dt_microsecond d \<and> dt_microsecond d < 1000000)"

text \<open>
  \<^verbatim>\<open>date.toordinal()\<close> and \<^verbatim>\<open>date.isoweekday()\<close> as CPython computes them: Monday is 1 and
  Sunday is 7.
\<close>

definition days_before_year :: "int \<Rightarrow> int" where
  "days_before_year y = (y - 1) * 365 + (y - 1) div 4 - (y - 1) div 100 + (y - 1) div 400"

definition days_before_month :: "int \<Rightarrow> int \<Rightarrow> int" where
  "days_before_month y m = sum_list (map (monthrange y) [1 .. m - 1])"

definition toordinal :: "datetime \<Rightarrow> int" where
  "toordinal d = days_before_year (dt_year d) + days_before_month (dt_year d) (dt_month d) + dt_day d"

definition isoweekday :: "datetime \<Rightarrow> int" where
  "isoweekday d = (let r = toordinal d mod 7 in if r = 0 then 7 else r)"

text \<open>
  \<^verbatim>\<open>n.add(days=k)\<close>, \<^verbatim>\<open>n.add(hours=k)\<close> and \<^verbatim>\<open>n.add(minutes=k)\<close>. Every amount that the
  source passes is a difference \<^verbatim>\<open>first(x >= v) - v\<close> or a sum of month lengths, hence
  never negative; adding days is stepping to the next day that many times.
\<close>

definition next_day :: "datetime \<Rightarrow> datetime" where
  "next_day d =
     (if dt_day d < monthrange (dt_year d) (dt_month d) then d\<lparr>dt_day := dt_day d + 1\<rparr>
      else if dt_month d < 12 then d\<lparr>dt_month := dt_month d + 1, dt_day := 1\<rparr>
      else d\<lparr>dt_year := dt_year d + 1, dt_month := 1, dt_day := 1\<rparr>)"

primrec iter_days :: "nat \<Rightarrow> datetime \<Rightarrow> datetime" where
  "iter_days 0 d = d"
| "iter_days (Suc k) d = iter_days k (next_day d)"

definition add_days :: "int \<Rightarrow> datetime \<Rightarrow> datetime" where
  "add_days k d = iter_days (nat k) d"

definition add_hours :: "int \<Rightarrow> datetime \<Rightarrow> datetime" where
  "add_hours k d =
     (let total = dt_hour d + k in add_days (total div 24) (d\<lparr>dt_hour := total mod 24\<rparr>))"

definition add_minutes :: "int \<Rightarrow> datetime \<Rightarrow> datetime" where
  "add_minutes k d =
     (let total = dt_minute d + k in add_hours (total div 60) (d\<lparr>dt_minute := total mod 60\<rparr>))"

section \<open>CronSpec\<close>

record cronspec =
  minute :: "int list"
  minute_e :: "int list"
  hour :: "int list"
  hour_e :: "int list"
  is_dom_restricted :: bool
  dom :: "int list"
  month :: "int list"
  month_e :: "int list"
  is_dow_restricted :: bool
  dow :: "int list"
  dow_e :: "int list"
  parsed_from :: "string option"

text \<open>
  \<^verbatim>\<open>setup\<close> (here \<open>setup_spec\<close>) assigns attribute after attribute, and \<^verbatim>\<open>m[0]\<close> on an empty list raises after
  the assignments before it. Each step returns the object as it then is and the exception,
  if any.
\<close>

definition setup_minute :: "cronspec \<Rightarrow> int list option \<Rightarrow> cronspec \<times> error option" where
  "setup_minute self m =
     (case m of None \<Rightarrow> (self, None)
      | Some m \<Rightarrow>
          (case m of [] \<Rightarrow> (self\<lparr>minute := m\<rparr>, Some IndexError)
           | m0 # _ \<Rightarrow> (self\<lparr>minute := m, minute_e := m @ [60 + m0]\<rparr>, None)))"

definition setup_hour :: "cronspec \<Rightarrow> int list option \<Rightarrow> cronspec \<times> error option" where
  "setup_hour self h =
     (case h of None \<Rightarrow> (self, None)
      | Some h \<Rightarrow>
          (case h of [] \<Rightarrow> (self\<lparr>hour := h\<rparr>, Some IndexError)
           | h0 # _ \<Rightarrow> (self\<lparr>hour := h, hour_e := h @ [24 + h0]\<rparr>, None)))"

definition setup_dom :: "cronspec \<Rightarrow> int list option \<Rightarrow> cronspec \<times> error option" where
  "setup_dom self d =
     (case d of None \<Rightarrow> (self, None)
      | Some d \<Rightarrow> (self\<lparr>is_dom_restricted := (length d < 31), dom := d\<rparr>, None))"

definition setup_month :: "cronspec \<Rightarrow> int list option \<Rightarrow> cronspec \<times> error option" where
  "setup_month self mo =
     (case mo of None \<Rightarrow> (self, None)
      | Some mo \<Rightarrow>
          (case mo of [] \<Rightarrow> (self\<lparr>month := mo\<rparr>, Some IndexError)
           | mo0 # _ \<Rightarrow> (self\<lparr>month := mo, month_e := mo @ [12 + mo0]\<rparr>, None)))"

definition setup_dow :: "cronspec \<Rightarrow> int list option \<Rightarrow> cronspec \<times> error option" where
  "setup_dow self w =
     (case w of None \<Rightarrow> (self, None)
      | Some w \<Rightarrow>
          (case w of [] \<Rightarrow> (self\<lparr>is_dow_restricted := (length w < 7), dow := w\<rparr>, Some IndexError)
           | w0 # _ \<Rightarrow>
               (self\<lparr>is_dow_restricted := (length w < 7), dow := w, dow_e := w @ [7 + w0]\<rparr>, None)))"

definition setup_spec ::
  "cronspec \<Rightarrow> int list option \<Rightarrow> int list option \<Rightarrow> int list option \<Rightarrow> int list option \<Rightarrow>
   int list option \<Rightarrow> cronspec \<times> error option" where
  "setup_spec self m h d mo w =
     (case setup_minute self m of (s, Some e) \<Rightarrow> (s, Some e) | (s, None) \<Rightarrow>
     (case setup_hour s h of (s, Some e) \<Rightarrow> (s, Some e) | (s, None) \<Rightarrow>
     (case setup_dom s d of (s, Some e) \<Rightarrow> (s, Some e) | (s, None) \<Rightarrow>
     (case setup_month s mo of (s, Some e) \<Rightarrow> (s, Some e) | (s, None) \<Rightarrow>
     (case setup_dow s w of (s, Some e) \<Rightarrow> (s, Some e) | (s, None) \<Rightarrow>
        (s\<lparr>parsed_from := None\<rparr>, None))))))"

text \<open>
  The constructor \<^verbatim>\<open>__init__\<close>, as \<^verbatim>\<open>parse\<close> calls it: with five lists. It runs \<^verbatim>\<open>setup\<close>
  on the new object, which assigns every attribute, and then stores \<^verbatim>\<open>parsed_from\<close>. When
  \<^verbatim>\<open>setup\<close> raises, no object is returned.
\<close>

definition new_object :: cronspec where
  "new_object =
     \<lparr>minute = [], minute_e = [], hour = [], hour_e = [], is_dom_restricted = False, dom = [],
      month = [], month_e = [], is_dow_restricted = False, dow = [], dow_e = [],
      parsed_from = None\<rparr>"

definition init ::
  "int list \<Rightarrow> int list \<Rightarrow> int list \<Rightarrow> int list \<Rightarrow> int list \<Rightarrow> string option \<Rightarrow>
   error + cronspec" where
  "init m h d mo w pf =
     (case setup_spec new_object (Some m) (Some h) (Some d) (Some mo) (Some w) of
        (s, Some e) \<Rightarrow> Inl e
      | (s, None) \<Rightarrow> Inr (s\<lparr>parsed_from := pf\<rparr>))"

subsection \<open>Parsing\<close>

definition named_spec :: "string \<rightharpoonup> string" where
  "named_spec =
     map_of [(''@yearly'', ''0 0 1 1 *''), (''@annually'', ''0 0 1 1 *''),
             (''@monthly'', ''0 0 1 * *''), (''@weekly'', ''0 0 * * 0''),
             (''@daily'', ''0 0 * * *''), (''@midnight'', ''0 0 * * *''),
             (''@hourly'', ''0 * * * *'')]"

definition weekdays :: "string list" where
  "weekdays = [''sun'', ''mon'', ''tue'', ''wed'', ''thu'', ''fri'', ''sat'']"

text \<open>The loop that replaces each day name in the day-of-week field by its number.\<close>

definition replace_weekdays :: "string \<Rightarrow> string" where
  "replace_weekdays w = foldl (\<lambda>w (i, day). replace_str day (str_int i) w) w (zip [0 .. 6] weekdays)"

text \<open>
  \<^verbatim>\<open>CronSpec.parse\<close>. The first subscription is \<^verbatim>\<open>fields[4]\<close>, which raises
  \<^verbatim>\<open>IndexError\<close> when there are fewer than five fields; fields after the fifth are never
  read. The keyword arguments of the constructor are evaluated from left to right.
\<close>

definition parse :: "string \<Rightarrow> error + cronspec" where
  "parse spec =
     (let fields = strip spec in
      case (if startswith_at fields
            then (case named_spec fields of None \<Rightarrow> Inl KeyError | Some f \<Rightarrow> Inr f)
            else Inr fields) of
        Inl e \<Rightarrow> Inl e
      | Inr fields \<Rightarrow>
     (let fields = split fields in
      case getitem fields 4 of Inl e \<Rightarrow> Inl e | Inr f4 \<Rightarrow>
     (let w = replace_weekdays (lower f4) in
      case getitem fields 0 of Inl e \<Rightarrow> Inl e | Inr f0 \<Rightarrow>
     (case expand_valid f0 0 59 of Inl e \<Rightarrow> Inl e | Inr m \<Rightarrow>
     (case getitem fields 1 of Inl e \<Rightarrow> Inl e | Inr f1 \<Rightarrow>
     (case expand_valid f1 0 23 of Inl e \<Rightarrow> Inl e | Inr h \<Rightarrow>
     (case getitem fields 2 of Inl e \<Rightarrow> Inl e | Inr f2 \<Rightarrow>
     (case expand_valid f2 1 31 of Inl e \<Rightarrow> Inl e | Inr d \<Rightarrow>
     (case getitem fields 3 of Inl e \<Rightarrow> Inl e | Inr f3 \<Rightarrow>
     (case expand_valid f3 1 12 of Inl e \<Rightarrow> Inl e | Inr mo \<Rightarrow>
     (case expand_valid w 0 7 of Inl e \<Rightarrow> Inl e | Inr w \<Rightarrow>
        init m h d mo w (Some spec))))))))))))"

subsection \<open>Formatting\<close>

fun group_loop :: "int \<Rightarrow> int \<Rightarrow> int list \<Rightarrow> (int \<times> int) list" where
  "group_loop start last_v [] = [(start, last_v)]"
| "group_loop start last_v (v # vs) =
     (if v - last_v > 1 then (start, last_v) # group_loop v v vs else group_loop start v vs)"

definition group_intervals :: "int list \<Rightarrow> error + (int \<times> int) list" where
  "group_intervals values =
     (case getitem values 0 of Inl e \<Rightarrow> Inl e | Inr v0 \<Rightarrow> Inr (group_loop v0 v0 (slice values 1 (int (length values)))))"

text \<open>
  \<^verbatim>\<open>format_interval\<close>; \<^verbatim>\<open>names\<close> is \<^verbatim>\<open>None\<close> or a list of day names, and the test
  \<^verbatim>\<open>elif names\<close> holds for a non-empty list.
\<close>

definition format_interval :: "int \<Rightarrow> int \<Rightarrow> string list option \<Rightarrow> error + string" where
  "format_interval start stop names =
     (if stop = start
      then (case names of None \<Rightarrow> Inr (str_int start) | Some ns \<Rightarrow> getitem ns start)
      else if names \<noteq> None \<and> names \<noteq> Some []
      then Inr (join '','' (slice (the names) start (stop + 1)))
      else Inr (str_int start @ ''-'' @ str_int stop))"

fun format_intervals :: "(int \<times> int) list \<Rightarrow> string list option \<Rightarrow> error + string list" where
  "format_intervals [] names = Inr []"
| "format_intervals ((start, stop) # rest) names =
     (case format_interval start stop names of Inl e \<Rightarrow> Inl e | Inr s \<Rightarrow>
     (case format_intervals rest names of Inl e \<Rightarrow> Inl e | Inr ss \<Rightarrow> Inr (s # ss)))"

definition format_groups :: "int list \<Rightarrow> string list option \<Rightarrow> error + string" where
  "format_groups values names =
     (case group_intervals values of Inl e \<Rightarrow> Inl e | Inr gs \<Rightarrow>
     (case format_intervals gs names of Inl e \<Rightarrow> Inl e | Inr ss \<Rightarrow> Inr (join '','' ss)))"

definition format_cron :: "int list \<Rightarrow> int \<Rightarrow> int \<Rightarrow> string list option \<Rightarrow> error + string" where
  "format_cron values minv maxv names =
     (case getitem values 0 of Inl e \<Rightarrow> Inl e | Inr v0 \<Rightarrow>
        if minv = v0
        then (case getitem values (- 1) of Inl e \<Rightarrow> Inl e | Inr vl \<Rightarrow>
                if vl = maxv then Inr ''*'' else format_groups values names)
        else format_groups values names)"

definition day_names :: "string list" where
  "day_names = [''Sun'', ''Mon'', ''Tue'', ''Wed'', ''Thu'', ''Fri'', ''Sat'', ''Sun'']"

text \<open>The five fields rendered from the value sets, joined by spaces.\<close>

definition format_fields :: "cronspec \<Rightarrow> error + string" where
  "format_fields self =
     (case format_cron (minute self) 0 59 None of Inl e \<Rightarrow> Inl e | Inr a \<Rightarrow>
     (case format_cron (hour self) 0 23 None of Inl e \<Rightarrow> Inl e | Inr b \<Rightarrow>
     (case format_cron (dom self) 1 31 None of Inl e \<Rightarrow> Inl e | Inr c \<Rightarrow>
     (case format_cron (month self) 1 12 None of Inl e \<Rightarrow> Inl e | Inr d \<Rightarrow>
     (case format_cron (dow self) 0 7 (Some day_names) of Inl e \<Rightarrow> Inl e | Inr f \<Rightarrow>
        Inr (join '' '' [a, b, c, d, f]))))))"

text \<open>\<^verbatim>\<open>CronSpec.__str__\<close>.\<close>

definition str_spec :: "cronspec \<Rightarrow> error + string" where
  "str_spec self = (case parsed_from self of Some s \<Rightarrow> Inr s | None \<Rightarrow> format_fields self)"

subsection \<open>Validation and the next valid date\<close>

definition first :: "('a \<Rightarrow> bool) \<Rightarrow> 'a list \<Rightarrow> error + 'a" where
  "first function iterable =
     (case List.find function iterable of None \<Rightarrow> Inl ValueError | Some x \<Rightarrow> Inr x)"

definition monthesrange :: "int \<Rightarrow> int \<Rightarrow> int \<Rightarrow> int list" where
  "monthesrange start_year start_month end_month =
     map (\<lambda>m. monthrange (start_year + m div 12) (1 + m mod 12))
       [start_month - 1 .. end_month - 1 - 1]"

definition next_valid_date :: "cronspec \<Rightarrow> datetime \<Rightarrow> error + datetime" where
  "next_valid_date self last_t =
     (let n = last_t\<lparr>dt_second := 0, dt_microsecond := 0\<rparr>;
          n = add_minutes 1 n
      in case first (\<lambda>x. x \<ge> dt_minute n) (minute_e self) of Inl e \<Rightarrow> Inl e | Inr fm \<Rightarrow>
     (let delay_m = fm - dt_minute n;
          n = add_minutes delay_m n
      in case first (\<lambda>x. x \<ge> dt_hour n) (hour_e self) of Inl e \<Rightarrow> Inl e | Inr fh \<Rightarrow>
     (let delay_h = fh - dt_hour n;
          n = add_hours delay_h n;
          last_dow = isoweekday n mod 7
      in case first (\<lambda>x. x \<ge> last_dow) (dow_e self) of Inl e \<Rightarrow> Inl e | Inr fw \<Rightarrow>
     (let delay_dow = fw - last_dow;
          month_days = monthrange (dt_year n) (dt_month n)
      in case getitem (dom self) 0 of Inl e \<Rightarrow> Inl e | Inr dom0 \<Rightarrow>
     (let dom_e = filter (\<lambda>x. x \<le> month_days) (dom self) @ [month_days + dom0]
      in case first (\<lambda>x. x \<ge> dt_day n) dom_e of Inl e \<Rightarrow> Inl e | Inr fd \<Rightarrow>
     (let delay_dom = fd - dt_day n;
          delay_d = (if is_dow_restricted self \<and> is_dom_restricted self
                     then min delay_dow delay_dom
                     else if is_dow_restricted self then delay_dow else delay_dom);
          n = add_days delay_d n
      in case first (\<lambda>x. x \<ge> dt_month n) (month_e self) of Inl e \<Rightarrow> Inl e | Inr next_month \<Rightarrow>
     (let delay_d = sum_list (monthesrange (dt_year n) (dt_month n) next_month);
          n = add_days delay_d n
      in Inr n)))))))"

definition validate :: "cronspec \<Rightarrow> datetime \<Rightarrow> bool" where
  "validate self date =
     (if dt_minute date \<notin> set (minute self) then False
      else if dt_hour date \<notin> set (hour self) then False
      else if dt_month date \<notin> set (month self) then False
      else (let weekday = isoweekday date in
        if is_dow_restricted self \<and> is_dom_restricted self
        then (if \<not> (dt_day date \<in> set (dom self) \<or> weekday \<in> set (dow self)) then False
              else True)
        else (if dt_day date \<notin> set (dom self) then False
              else if weekday \<notin> set (dow self) then False
              else True)))"

subsection \<open>Objects in a store: setup in place and replace\<close>

text \<open>
  \<^verbatim>\<open>setup\<close> mutates its receiver and \<^verbatim>\<open>replace\<close> works on a \<^verbatim>\<open>deepcopy\<close> of it, so both
  are also given on a store of objects: an address is an index into the list of objects,
  and a new object takes the next free address. A reference held by the program is an
  address below the length of the store.
\<close>

type_synonym store = "cronspec list"

definition deepcopy :: "store \<Rightarrow> nat \<Rightarrow> store \<times> nat" where
  "deepcopy st a = (st @ [st ! a], length st)"

definition setup_obj ::
  "store \<Rightarrow> nat \<Rightarrow> int list option \<Rightarrow> int list option \<Rightarrow> int list option \<Rightarrow>
   int list option \<Rightarrow> int list option \<Rightarrow> store \<times> error option" where
  "setup_obj st self m h d mo w =
     (case setup_spec (st ! self) m h d mo w of (s, r) \<Rightarrow> (st[self := s], r))"

definition replace ::
  "store \<Rightarrow> nat \<Rightarrow> int list option \<Rightarrow> int list option \<Rightarrow> int list option \<Rightarrow>
   int list option \<Rightarrow> int list option \<Rightarrow> store \<times> (error + nat)" where
  "replace st self m h d mo w =
     (case deepcopy st self of (st1, copy) \<Rightarrow>
     (case setup_obj st1 copy m h d mo w of
        (st2, Some e) \<Rightarrow> (st2, Inl e)
      | (st2, None) \<Rightarrow> (st2, Inr copy)))"

text \<open>The module function \<^verbatim>\<open>cron\<close>.\<close>

definition cron :: "string \<Rightarrow> error + cronspec" where
  "cron spec = parse spec"

section \<open>Predicates of the specification\<close>

text \<open>A timestamp at a full minute.\<close>

abbreviation at_minute :: "int \<Rightarrow> int \<Rightarrow> int \<Rightarrow> int \<Rightarrow> int \<Rightarrow> datetime" where
  "at_minute y mo d h mi \<equiv>
     \<lparr>dt_year = y, dt_month = mo, dt_day = d, dt_hour = h, dt_minute = mi,
      dt_second = 0, dt_microsecond = 0\<rparr>"

text \<open>
  The extended sets are the value sets with one sentinel appended: the first element plus
  the period of the field.
\<close>

definition ext_inv :: "cronspec \<Rightarrow> bool" where
  "ext_inv c =
     (minute c \<noteq> [] \<and> minute_e c = minute c @ [60 + hd (minute c)] \<and>
      hour c \<noteq> [] \<and> hour_e c = hour c @ [24 + hd (hour c)] \<and>
      month c \<noteq> [] \<and> month_e c = month c @ [12 + hd (month c)] \<and>
      dow c \<noteq> [] \<and> dow_e c = dow c @ [7 + hd (dow c)])"

text \<open>Every value set lies within the domain of its field.\<close>

definition in_domain :: "cronspec \<Rightarrow> bool" where
  "in_domain c =
     (set (minute c) \<subseteq> {0 .. 59} \<and> set (hour c) \<subseteq> {0 .. 23} \<and> set (dom c) \<subseteq> {1 .. 31} \<and>
      set (month c) \<subseteq> {1 .. 12} \<and> set (dow c) \<subseteq> {0 .. 7})"

text \<open>
  A malformed field: after the star is spelled out, one of its comma-separated parts has a
  start, a non-empty end or a non-empty step that \<^verbatim>\<open>int()\<close> rejects, or a step of zero.
\<close>

definition bad_interval :: "string \<Rightarrow> bool" where
  "bad_interval interval =
     (case partition CHR ''/'' interval of (rng, _, step) \<Rightarrow>
     (case partition CHR ''-'' rng of (start, _, end) \<Rightarrow>
        (step \<noteq> [] \<and> isl (int_of_str step)) \<or> isl (int_of_str start) \<or>
        (end \<noteq> [] \<and> isl (int_of_str end)) \<or> (step \<noteq> [] \<and> int_of_str step = Inr 0)))"

definition malformed_field :: "string \<Rightarrow> int \<Rightarrow> int \<Rightarrow> bool" where
  "malformed_field val minv maxv =
     list_ex bad_interval
       (split_on CHR '','' [] (replace_str ''*'' (str_int minv @ ''-'' @ str_int maxv) val))"

text \<open>The two flags are the length tests of \<^verbatim>\<open>setup\<close>.\<close>

definition flags_len :: "cronspec \<Rightarrow> bool" where
  "flags_len c =
     ((is_dom_restricted c \<longleftrightarrow> length (dom c) < 31) \<and>
      (is_dow_restricted c \<longleftrightarrow> length (dow c) < 7))"

section \<open>The constructor and the parser\<close>

lemma init_fields:
  assumes "init m h d mo w pf = Inr c"
  shows "minute c = m \<and> hour c = h \<and> dom c = d \<and> month c = mo \<and> dow c = w \<and> parsed_from c = pf
     \<and> ext_inv c \<and> flags_len c"
  using assms
  by (auto simp: init_def setup_spec_def setup_minute_def setup_hour_def setup_dom_def
      setup_month_def setup_dow_def new_object_def ext_inv_def flags_len_def
      split: list.splits)

lemma getitem_Inr: "getitem xs (int k) = Inr x \<longleftrightarrow> k < length xs \<and> x = xs ! k"
  by (auto simp: getitem_def Let_def)

lemma getitem_Inl: "getitem xs (int k) = Inl e \<longleftrightarrow> length xs \<le> k \<and> e = IndexError"
  by (auto simp: getitem_def Let_def)

lemma getitem_numeral:
  "getitem xs (numeral k) = Inr x \<longleftrightarrow> numeral k < length xs \<and> x = xs ! numeral k"
  "getitem xs 0 = Inr x \<longleftrightarrow> 0 < length xs \<and> x = xs ! 0"
  "getitem xs 1 = Inr x \<longleftrightarrow> 1 < length xs \<and> x = xs ! 1"
  using getitem_Inr[of xs "numeral k" x] getitem_Inr[of xs 0 x] getitem_Inr[of xs 1 x]
  by simp_all

text \<open>What a successful \<^verbatim>\<open>parse\<close> went through.\<close>

lemma parse_Inr:
  assumes "parse s = Inr c"
  shows "\<exists>txt m h d mo w.
       (if startswith_at (strip s) then named_spec (strip s) = Some txt else txt = strip s)
     \<and> 5 \<le> length (split txt)
     \<and> expand_valid (split txt ! 0) 0 59 = Inr m
     \<and> expand_valid (split txt ! 1) 0 23 = Inr h
     \<and> expand_valid (split txt ! 2) 1 31 = Inr d
     \<and> expand_valid (split txt ! 3) 1 12 = Inr mo
     \<and> expand_valid (replace_weekdays (lower (split txt ! 4))) 0 7 = Inr w
     \<and> init m h d mo w (Some s) = Inr c"
  using assms unfolding parse_def Let_def
  by (auto simp: getitem_numeral split: sum.splits if_splits option.splits)

lemma parse_ext_inv: "parse s = Inr c \<Longrightarrow> ext_inv c"
  using parse_Inr[of s c] init_fields by blast

lemma parse_parsed_from: "parse s = Inr c \<Longrightarrow> parsed_from c = Some s"
  using parse_Inr[of s c] init_fields by blast

section \<open>Calendar arithmetic\<close>

lemma monthrange_bounds: "28 \<le> monthrange y m \<and> monthrange y m \<le> 31"
  by (simp add: monthrange_def)

lemma wf_next_day: "wf_datetime d \<Longrightarrow> wf_datetime (next_day d)"
  using monthrange_bounds[of "dt_year d" "dt_month d + 1"] monthrange_bounds[of "dt_year d + 1" 1]
  by (auto simp: wf_datetime_def next_day_def)

lemma wf_iter_days: "wf_datetime d \<Longrightarrow> wf_datetime (iter_days k d)"
  by (induction k arbitrary: d) (simp_all add: wf_next_day)

lemma wf_add_days: "wf_datetime d \<Longrightarrow> wf_datetime (add_days k d)"
  by (simp add: add_days_def wf_iter_days)

lemma wf_add_hours: "wf_datetime d \<Longrightarrow> wf_datetime (add_hours k d)"
  unfolding add_hours_def Let_def
  by (rule wf_add_days) (simp add: wf_datetime_def)

lemma wf_add_minutes: "wf_datetime d \<Longrightarrow> wf_datetime (add_minutes k d)"
  unfolding add_minutes_def Let_def
  by (rule wf_add_hours) (simp add: wf_datetime_def)

lemma first_exists: "\<exists>v\<in>set xs. P v \<Longrightarrow> \<exists>v. first P xs = Inr v"
  by (cases "List.find P xs") (auto simp: first_def find_None_iff)

lemma wf_truncate: "wf_datetime t \<Longrightarrow> wf_datetime (t\<lparr>dt_second := 0, dt_microsecond := 0\<rparr>)"
  by (simp add: wf_datetime_def)

lemma sentinel_search:
  fixes xs :: "int list"
  assumes "xs \<noteq> []" "set xs \<subseteq> {lo .. hi}" "x \<le> p + lo"
  shows "\<exists>v. first (\<lambda>v. x \<le> v) (xs @ [p + hd xs]) = Inr v"
proof (rule first_exists)
  have "hd xs \<in> set xs" using assms(1) by simp
  then have "lo \<le> hd xs" using assms(2) by auto
  then have "x \<le> p + hd xs" using assms(3) by simp
  then show "\<exists>v\<in>set (xs @ [p + hd xs]). x \<le> v" by simp
qed

lemma dom_search:
  fixes xs :: "int list"
  assumes "set xs \<subseteq> {1 .. 31}" "getitem xs 0 = Inr d0" "x \<le> md"
  shows "\<exists>v. first (\<lambda>v. x \<le> v) (filter (\<lambda>v. v \<le> md) xs @ [md + d0]) = Inr v"
proof (rule first_exists)
  from assms(2) have "xs \<noteq> []" "d0 = hd xs"
    by (auto simp: getitem_def Let_def hd_conv_nth split: if_splits)
  then have "d0 \<in> set xs" by simp
  then have "1 \<le> d0" using assms(1) by auto
  then have "x \<le> md + d0" using assms(3) by simp
  then show "\<exists>v\<in>set (filter (\<lambda>v. v \<le> md) xs @ [md + d0]). x \<le> v" by simp
qed

lemma getitem_0_nonempty: "xs \<noteq> [] \<Longrightarrow> getitem xs 0 = Inr (hd xs)"
  by (cases xs) (simp_all add: getitem_def)

lemma isoweekday_mod7: "0 \<le> isoweekday d mod 7 \<and> isoweekday d mod 7 \<le> 6"
  by simp

lemma next_valid_date_total:
  assumes inv: "ext_inv c" and dm: "in_domain c" and ne: "dom c \<noteq> []" and wf: "wf_datetime t"
  shows "\<exists>n. next_valid_date c t = Inr n"
proof -
  define n1 where "n1 = add_minutes 1 (t\<lparr>dt_second := 0, dt_microsecond := 0\<rparr>)"
  have wf1: "wf_datetime n1"
    unfolding n1_def by (intro wf_add_minutes wf_truncate wf)
  have "\<exists>v. first (\<lambda>v. dt_minute n1 \<le> v) (minute c @ [60 + hd (minute c)]) = Inr v"
    using inv dm wf1 by (intro sentinel_search[where lo = 0 and hi = 59])
      (auto simp: ext_inv_def in_domain_def wf_datetime_def)
  then obtain fm where fm: "first (\<lambda>v. dt_minute n1 \<le> v) (minute_e c) = Inr fm"
    using inv by (auto simp: ext_inv_def)
  define n2 where "n2 = add_minutes (fm - dt_minute n1) n1"
  have wf2: "wf_datetime n2"
    unfolding n2_def by (intro wf_add_minutes wf1)
  have "\<exists>v. first (\<lambda>v. dt_hour n2 \<le> v) (hour c @ [24 + hd (hour c)]) = Inr v"
    using inv dm wf2 by (intro sentinel_search[where lo = 0 and hi = 23])
      (auto simp: ext_inv_def in_domain_def wf_datetime_def)
  then obtain fh where fh: "first (\<lambda>v. dt_hour n2 \<le> v) (hour_e c) = Inr fh"
    using inv by (auto simp: ext_inv_def)
  define n3 where "n3 = add_hours (fh - dt_hour n2) n2"
  have wf3: "wf_datetime n3"
    unfolding n3_def by (intro wf_add_hours wf2)
  have w7: "isoweekday n3 mod 7 \<le> 7"
    using isoweekday_mod7[of n3] by simp
  have "\<exists>v. first (\<lambda>v. isoweekday n3 mod 7 \<le> v) (dow c @ [7 + hd (dow c)]) = Inr v"
    using inv dm w7 by (intro sentinel_search[where lo = 0 and hi = 7])
      (auto simp: ext_inv_def in_domain_def)
  then obtain fw where fw: "first (\<lambda>v. isoweekday n3 mod 7 \<le> v) (dow_e c) = Inr fw"
    using inv by (auto simp: ext_inv_def)
  have d0: "getitem (dom c) 0 = Inr (hd (dom c))"
    using ne by (rule getitem_0_nonempty)
  define md where "md = monthrange (dt_year n3) (dt_month n3)"
  have "\<exists>v. first (\<lambda>v. dt_day n3 \<le> v) (filter (\<lambda>v. v \<le> md) (dom c) @ [md + hd (dom c)]) = Inr v"
    using dm d0 wf3 by (intro dom_search) (auto simp: in_domain_def wf_datetime_def md_def)
  then obtain fd where
    fd: "first (\<lambda>v. dt_day n3 \<le> v) (filter (\<lambda>v. v \<le> md) (dom c) @ [md + hd (dom c)]) = Inr fd"
    by blast
  define dd where "dd = (if is_dow_restricted c \<and> is_dom_restricted c
                     then min (fw - isoweekday n3 mod 7) (fd - dt_day n3)
                     else if is_dow_restricted c then fw - isoweekday n3 mod 7 else fd - dt_day n3)"
  define n4 where "n4 = add_days dd n3"
  have wf4: "wf_datetime n4"
    unfolding n4_def by (intro wf_add_days wf3)
  have "\<exists>v. first (\<lambda>v. dt_month n4 \<le> v) (month c @ [12 + hd (month c)]) = Inr v"
    using inv dm wf4 by (intro sentinel_search[where lo = 1 and hi = 12])
      (auto simp: ext_inv_def in_domain_def wf_datetime_def)
  then obtain nm where nm: "first (\<lambda>v. dt_month n4 \<le> v) (month_e c) = Inr nm"
    using inv by (auto simp: ext_inv_def)
  show ?thesis
    unfolding next_valid_date_def Let_def
    using fm fh fw d0 fd nm
    unfolding n4_def dd_def md_def n3_def n2_def n1_def
    by simp
qed

lemma next_valid_date_empty_dom:
  assumes inv: "ext_inv c" and dm: "in_domain c" and em: "dom c = []" and wf: "wf_datetime t"
  shows "next_valid_date c t = Inl IndexError"
proof -
  define n1 where "n1 = add_minutes 1 (t\<lparr>dt_second := 0, dt_microsecond := 0\<rparr>)"
  have wf1: "wf_datetime n1"
    unfolding n1_def by (intro wf_add_minutes wf_truncate wf)
  have "\<exists>v. first (\<lambda>v. dt_minute n1 \<le> v) (minute c @ [60 + hd (minute c)]) = Inr v"
    using inv dm wf1 by (intro sentinel_search[where lo = 0 and hi = 59])
      (auto simp: ext_inv_def in_domain_def wf_datetime_def)
  then obtain fm where fm: "first (\<lambda>v. dt_minute n1 \<le> v) (minute_e c) = Inr fm"
    using inv by (auto simp: ext_inv_def)
  define n2 where "n2 = add_minutes (fm - dt_minute n1) n1"
  have wf2: "wf_datetime n2"
    unfolding n2_def by (intro wf_add_minutes wf1)
  have "\<exists>v. first (\<lambda>v. dt_hour n2 \<le> v) (hour c @ [24 + hd (hour c)]) = Inr v"
    using inv dm wf2 by (intro sentinel_search[where lo = 0 and hi = 23])
      (auto simp: ext_inv_def in_domain_def wf_datetime_def)
  then obtain fh where fh: "first (\<lambda>v. dt_hour n2 \<le> v) (hour_e c) = Inr fh"
    using inv by (auto simp: ext_inv_def)
  define n3 where "n3 = add_hours (fh - dt_hour n2) n2"
  have w7: "isoweekday n3 mod 7 \<le> 7"
    using isoweekday_mod7[of n3] by simp
  have "\<exists>v. first (\<lambda>v. isoweekday n3 mod 7 \<le> v) (dow c @ [7 + hd (dow c)]) = Inr v"
    using inv dm w7 by (intro sentinel_search[where lo = 0 and hi = 7])
      (auto simp: ext_inv_def in_domain_def)
  then obtain fw where fw: "first (\<lambda>v. isoweekday n3 mod 7 \<le> v) (dow_e c) = Inr fw"
    using inv by (auto simp: ext_inv_def)
  have d0: "getitem (dom c) 0 = Inl IndexError"
    by (simp add: em getitem_def)
  show ?thesis
    unfolding next_valid_date_def Let_def
    using fm fh fw d0
    unfolding n3_def n2_def n1_def
    by simp
qed

section \<open>Setup, replace and the flags\<close>

lemma setup_minute_ok:
  "setup_minute c m = (c', None) \<Longrightarrow>
     c' = (case m of None \<Rightarrow> c | Some x \<Rightarrow> c\<lparr>minute := x, minute_e := x @ [60 + hd x]\<rparr>)"
  by (auto simp: setup_minute_def split: option.splits list.splits)

lemma setup_hour_ok:
  "setup_hour c h = (c', None) \<Longrightarrow>
     c' = (case h of None \<Rightarrow> c | Some x \<Rightarrow> c\<lparr>hour := x, hour_e := x @ [24 + hd x]\<rparr>)"
  by (auto simp: setup_hour_def split: option.splits list.splits)

lemma setup_dom_ok:
  "setup_dom c d = (c', None) \<Longrightarrow>
     c' = (case d of None \<Rightarrow> c | Some x \<Rightarrow> c\<lparr>is_dom_restricted := (length x < 31), dom := x\<rparr>)"
  by (auto simp: setup_dom_def split: option.splits)

lemma setup_month_ok:
  "setup_month c mo = (c', None) \<Longrightarrow>
     c' = (case mo of None \<Rightarrow> c | Some x \<Rightarrow> c\<lparr>month := x, month_e := x @ [12 + hd x]\<rparr>)"
  by (auto simp: setup_month_def split: option.splits list.splits)

lemma setup_dow_ok:
  "setup_dow c w = (c', None) \<Longrightarrow>
     c' = (case w of None \<Rightarrow> c
           | Some x \<Rightarrow> c\<lparr>is_dow_restricted := (length x < 7), dow := x, dow_e := x @ [7 + hd x]\<rparr>)"
  by (auto simp: setup_dow_def split: option.splits list.splits)

lemma setup_spec_ok:
  assumes "setup_spec c m h d mo w = (c', None)"
  shows "\<exists>c1 c2 c3 c4 c5. setup_minute c m = (c1, None) \<and> setup_hour c1 h = (c2, None) \<and>
           setup_dom c2 d = (c3, None) \<and> setup_month c3 mo = (c4, None) \<and>
           setup_dow c4 w = (c5, None) \<and> c' = c5\<lparr>parsed_from := None\<rparr>"
  using assms by (auto simp: setup_spec_def split: prod.splits option.splits)

lemma setup_spec_frame:
  assumes "setup_spec c m h d mo w = (c', None)"
  shows "(m = None \<longrightarrow> minute c' = minute c \<and> minute_e c' = minute_e c) \<and>
         (h = None \<longrightarrow> hour c' = hour c \<and> hour_e c' = hour_e c) \<and>
         (d = None \<longrightarrow> dom c' = dom c \<and> is_dom_restricted c' = is_dom_restricted c) \<and>
         (mo = None \<longrightarrow> month c' = month c \<and> month_e c' = month_e c) \<and>
         (w = None \<longrightarrow> dow c' = dow c \<and> dow_e c' = dow_e c \<and>
            is_dow_restricted c' = is_dow_restricted c) \<and>
         parsed_from c' = None"
proof -
  from setup_spec_ok[OF assms] obtain c1 c2 c3 c4 c5 where
    s: "setup_minute c m = (c1, None)" "setup_hour c1 h = (c2, None)"
       "setup_dom c2 d = (c3, None)" "setup_month c3 mo = (c4, None)"
       "setup_dow c4 w = (c5, None)" and c': "c' = c5\<lparr>parsed_from := None\<rparr>"
    by blast
  note r = setup_minute_ok[OF s(1)] setup_hour_ok[OF s(2)] setup_dom_ok[OF s(3)]
    setup_month_ok[OF s(4)] setup_dow_ok[OF s(5)]
  show ?thesis
    unfolding c' using r by (simp split: option.splits)
qed

lemma replace_result:
  assumes "replace st a m h d mo w = (st', r)"
  shows "\<exists>c' e. setup_spec (st ! a) m h d mo w = (c', e) \<and> st' = st @ [c'] \<and>
           r = (case e of Some x \<Rightarrow> Inl x | None \<Rightarrow> Inr (length st))"
  using assms
  by (auto simp: replace_def deepcopy_def setup_obj_def nth_append split: prod.splits option.splits)

lemma getitem_short: "0 \<le> i \<Longrightarrow> int (length xs) \<le> i \<Longrightarrow> getitem xs i = Inl IndexError"
  by (simp add: getitem_def)

section \<open>Malformed fields\<close>

lemma int_of_str_error: "int_of_str s = Inl e \<Longrightarrow> e = ValueError"
  by (auto simp: int_of_str_def split: list.splits option.splits if_splits)

lemma expand_intervals_Inl:
  "expand_intervals ivs valid = Inl e \<longleftrightarrow> e = ValueError \<and> list_ex bad_interval ivs"
proof (induction ivs arbitrary: valid)
  case Nil
  show ?case by simp
next
  case (Cons i ivs)
  obtain rng sep1 step where p1: "partition CHR ''/'' i = (rng, sep1, step)"
    by (cases "partition CHR ''/'' i") auto
  obtain start sep2 en where p2: "partition CHR ''-'' rng = (start, sep2, en)"
    by (cases "partition CHR ''-'' rng") auto
  show ?case
    using Cons.IH int_of_str_error[of step] int_of_str_error[of start] int_of_str_error[of en]
    by (auto simp: p1 p2 bad_interval_def range_def split: sum.splits if_splits)
qed

lemma expand_valid_Inl:
  "expand_valid f lo hi = Inl e \<longleftrightarrow> e = ValueError \<and> malformed_field f lo hi"
proof -
  let ?ivs = "split_on CHR '','' [] (replace_str ''*'' (str_int lo @ ''-'' @ str_int hi) f)"
  show ?thesis
  proof (cases "expand_intervals ?ivs {}")
    case (Inl x)
    then show ?thesis
      using expand_intervals_Inl[of ?ivs "{}" x]
      by (auto simp: expand_valid_def malformed_field_def Let_def)
  next
    case (Inr v)
    then show ?thesis
      using expand_intervals_Inl[of ?ivs "{}" ValueError]
      by (auto simp: expand_valid_def malformed_field_def Let_def)
  qed
qed

lemma parse_five_fields:
  assumes "\<not> startswith_at (strip s)" "5 \<le> length (split (strip s))"
  shows "parse s =
     (case expand_valid (split (strip s) ! 0) 0 59 of Inl e \<Rightarrow> Inl e | Inr m \<Rightarrow>
     (case expand_valid (split (strip s) ! 1) 0 23 of Inl e \<Rightarrow> Inl e | Inr h \<Rightarrow>
     (case expand_valid (split (strip s) ! 2) 1 31 of Inl e \<Rightarrow> Inl e | Inr d \<Rightarrow>
     (case expand_valid (split (strip s) ! 3) 1 12 of Inl e \<Rightarrow> Inl e | Inr mo \<Rightarrow>
     (case expand_valid (replace_weekdays (lower (split (strip s) ! 4))) 0 7 of
        Inl e \<Rightarrow> Inl e | Inr w \<Rightarrow> init m h d mo w (Some s))))))"
proof -
  let ?fs = "split (strip s)"
  have g: "getitem ?fs 0 = Inr (?fs ! 0)" "getitem ?fs 1 = Inr (?fs ! 1)"
    "getitem ?fs 2 = Inr (?fs ! 2)" "getitem ?fs 3 = Inr (?fs ! 3)" "getitem ?fs 4 = Inr (?fs ! 4)"
    using assms(2) by (auto simp: getitem_def)
  show ?thesis
    using assms(1) by (simp add: parse_def Let_def g cong: sum.case_cong)
qed

lemma parse_malformed:
  assumes "\<not> startswith_at (strip s)" "5 \<le> length (split (strip s))"
    and "malformed_field (split (strip s) ! 0) 0 59 \<or>
       malformed_field (split (strip s) ! 1) 0 23 \<or>
       malformed_field (split (strip s) ! 2) 1 31 \<or>
       malformed_field (split (strip s) ! 3) 1 12 \<or>
       malformed_field (replace_weekdays (lower (split (strip s) ! 4))) 0 7"
  shows "parse s = Inl ValueError"
proof -
  have e: "\<And>f lo hi. malformed_field f lo hi \<Longrightarrow> expand_valid f lo hi = Inl ValueError"
    by (simp add: expand_valid_Inl)
  have v: "\<And>f lo hi x. expand_valid f lo hi = Inl x \<Longrightarrow> x = ValueError"
    by (simp add: expand_valid_Inl)
  show ?thesis
    unfolding parse_five_fields[OF assms(1,2)]
    using assms(3) by (auto split: sum.splits dest: v simp: e)
qed

section \<open>Properties of the specification, checked on the code\<close>

text \<open>
  C1. The specification states: for every CronSpec that \<^verbatim>\<open>parse\<close> produces and every timestamp,
  \<^verbatim>\<open>validate(next_valid_date(t))\<close> is true. The code does not keep it. The day is advanced
  with the length of the month in which the search starts, and the result is not checked
  again: for \<^verbatim>\<open>0 0 30 * *\<close> from 2024-01-30 00:00 the candidate is 2024-01-31 00:00, the
  next day 30 is taken to be 30 days later, which is 2024-03-01 because February is shorter,
  and \<^verbatim>\<open>validate\<close> rejects day 1. The theorem evaluates the code at this input.
\<close>

theorem next_valid_date_not_validated:
  "(case parse ''0 0 30 * *'' of
      Inl e \<Rightarrow> Inl e
    | Inr c \<Rightarrow>
        (case next_valid_date c (at_minute 2024 1 30 0 0) of
           Inl e \<Rightarrow> Inl e
         | Inr n \<Rightarrow> Inr (n, validate c n)))
   = Inr (at_minute 2024 3 1 0 0, False)"
  by code_simp

text \<open>
  C3. For a CronSpec that \<^verbatim>\<open>parse\<close> produces with every value set within its domain, each
  extended set is the set plus its sentinel, and a search for the first value at or above
  \<open>x\<close> succeeds for every \<open>x\<close> of the field's domain; so does the search in the
  day-of-month list built for a month of 28 to 31 days. Hence \<^verbatim>\<open>next_valid_date\<close> never
  ends in the \<^verbatim>\<open>ValueError\<close> of \<^verbatim>\<open>first\<close>, and it returns a timestamp unless the
  day-of-month set is empty (then \<^verbatim>\<open>self.dom[0]\<close> raises \<^verbatim>\<open>IndexError\<close>).
\<close>

theorem extended_search_succeeds:
  assumes "parse s = Inr c" and "in_domain c" and "wf_datetime t"
  shows "ext_inv c \<and>
     (\<forall>x\<in>{0 .. 59}. \<exists>v. first (\<lambda>v. x \<le> v) (minute_e c) = Inr v) \<and>
     (\<forall>x\<in>{0 .. 23}. \<exists>v. first (\<lambda>v. x \<le> v) (hour_e c) = Inr v) \<and>
     (\<forall>x\<in>{1 .. 12}. \<exists>v. first (\<lambda>v. x \<le> v) (month_e c) = Inr v) \<and>
     (\<forall>x\<in>{0 .. 7}. \<exists>v. first (\<lambda>v. x \<le> v) (dow_e c) = Inr v) \<and>
     (\<forall>md\<in>{28 .. 31}. \<forall>x\<in>{1 .. md}. \<forall>d0. getitem (dom c) 0 = Inr d0 \<longrightarrow>
        (\<exists>v. first (\<lambda>v. x \<le> v) (filter (\<lambda>v. v \<le> md) (dom c) @ [md + d0]) = Inr v)) \<and>
     next_valid_date c t \<noteq> Inl ValueError \<and>
     (dom c \<noteq> [] \<longrightarrow> (\<exists>n. next_valid_date c t = Inr n))"
proof -
  have inv: "ext_inv c" using assms(1) by (rule parse_ext_inv)
  have m: "\<exists>v. first (\<lambda>v. x \<le> v) (minute_e c) = Inr v" if "x \<in> {0 .. 59}" for x
    using sentinel_search[of "minute c" 0 59 x 60] inv assms(2) that
    by (simp add: ext_inv_def in_domain_def)
  have h: "\<exists>v. first (\<lambda>v. x \<le> v) (hour_e c) = Inr v" if "x \<in> {0 .. 23}" for x
    using sentinel_search[of "hour c" 0 23 x 24] inv assms(2) that
    by (simp add: ext_inv_def in_domain_def)
  have mo: "\<exists>v. first (\<lambda>v. x \<le> v) (month_e c) = Inr v" if "x \<in> {1 .. 12}" for x
    using sentinel_search[of "month c" 1 12 x 12] inv assms(2) that
    by (simp add: ext_inv_def in_domain_def)
  have w: "\<exists>v. first (\<lambda>v. x \<le> v) (dow_e c) = Inr v" if "x \<in> {0 .. 7}" for x
    using sentinel_search[of "dow c" 0 7 x 7] inv assms(2) that
    by (simp add: ext_inv_def in_domain_def)
  have d: "\<exists>v. first (\<lambda>v. x \<le> v) (filter (\<lambda>v. v \<le> md) (dom c) @ [md + d0]) = Inr v"
    if "x \<in> {1 .. md}" "getitem (dom c) 0 = Inr d0" for x md d0
    using dom_search[of "dom c" d0 x md] assms(2) that by (simp add: in_domain_def)
  have nv: "next_valid_date c t \<noteq> Inl ValueError"
  proof (cases "dom c = []")
    case True
    then show ?thesis using next_valid_date_empty_dom[OF inv assms(2) _ assms(3)] by simp
  next
    case False
    then show ?thesis using next_valid_date_total[OF inv assms(2) _ assms(3)] by auto
  qed
  have tot: "\<exists>n. next_valid_date c t = Inr n" if "dom c \<noteq> []"
    using next_valid_date_total[OF inv assms(2) that assms(3)] .
  from inv m h mo w d nv tot show ?thesis by blast
qed

theorem extended_search_succeeds_witness:
  "\<exists>c. parse ''*/15 9-17 1,15 * 1-5'' = Inr c \<and> in_domain c \<and>
     wf_datetime (at_minute 2024 2 29 23 59) \<and> minute_e c = [0, 15, 30, 45, 60] \<and>
     (\<exists>v. first (\<lambda>v. 59 \<le> v) (minute_e c) = Inr v) \<and>
     (\<exists>v. first (\<lambda>v. 7 \<le> v) (dow_e c) = Inr v) \<and>
     (\<exists>n. next_valid_date c (at_minute 2024 2 29 23 59) = Inr n)"
proof -
  have "case parse ''*/15 9-17 1,15 * 1-5'' of Inl e \<Rightarrow> False
        | Inr c \<Rightarrow> in_domain c \<and> dom c \<noteq> [] \<and> minute_e c = [0, 15, 30, 45, 60]"
    by code_simp
  then obtain c where c: "parse ''*/15 9-17 1,15 * 1-5'' = Inr c" "in_domain c" "dom c \<noteq> []"
    "minute_e c = [0, 15, 30, 45, 60]"
    by (auto split: sum.splits)
  have wf: "wf_datetime (at_minute 2024 2 29 23 59)"
    by (simp add: wf_datetime_def monthrange_def isleap_def)
  have "(59::int) \<in> {0 .. 59}" "(7::int) \<in> {0 .. 7}" by simp_all
  with extended_search_succeeds[OF c(1,2) wf] c(3)
  have "(\<exists>v. first (\<lambda>v. 59 \<le> v) (minute_e c) = Inr v) \<and>
     (\<exists>v. first (\<lambda>v. 7 \<le> v) (dow_e c) = Inr v) \<and>
     (\<exists>n. next_valid_date c (at_minute 2024 2 29 23 59) = Inr n)"
    by blast
  with c wf show ?thesis by blast
qed

text \<open>
  C4. The specification states: \<^verbatim>\<open>* * * * 0\<close> and \<^verbatim>\<open>* * * * 7\<close> agree on \<^verbatim>\<open>validate\<close> and both hold
  exactly on Sundays, as does the name \<^verbatim>\<open>sun\<close>. The code does not keep it: \<^verbatim>\<open>validate\<close>
  looks the ISO weekday up (Sunday is 7) in the day-of-week set, where \<^verbatim>\<open>next_valid_date\<close>
  takes it modulo 7. On Sunday 2024-01-07 the spec with 7 validates, the specs with 0 and
  with \<^verbatim>\<open>sun\<close> do not.
\<close>

theorem validate_sunday_zero_rejected:
  "isoweekday (at_minute 2024 1 7 0 0) = 7 \<and>
   map_sum id (\<lambda>c. validate c (at_minute 2024 1 7 0 0)) (parse ''* * * * 0'') = Inr False \<and>
   map_sum id (\<lambda>c. validate c (at_minute 2024 1 7 0 0)) (parse ''* * * * 7'') = Inr True \<and>
   map_sum id (\<lambda>c. validate c (at_minute 2024 1 7 0 0)) (parse ''* * * * sun'') = Inr False"
  by code_simp

text \<open>
  C5. The specification states: when both the day-of-month and the day-of-week are
  restricted, \<^verbatim>\<open>validate\<close> holds when the day of the month is in \<^verbatim>\<open>dom\<close> or the weekday is
  in \<^verbatim>\<open>dow\<close>, where 0 and 7 both denote Sunday. The three dates of the example evaluate
  as stated, but the rule is not kept for Sunday written as 0: the spec parsed from
  \<^verbatim>\<open>0 0 1,15 * 0\<close> has both flags set and \<^verbatim>\<open>validate\<close> is false on Sunday 2024-01-07
  00:00, because the ISO weekday 7 is looked up in \<open>[0]\<close>. With 7 in place of 0 it is true.
\<close>

theorem validate_or_rule_sunday_rejected:
  "map_sum id (\<lambda>c. (is_dom_restricted c, is_dow_restricted c, dom c, dow c))
     (parse ''0 0 1,15 * 0'') = Inr (True, True, [1, 15], [0]) \<and>
   isoweekday (at_minute 2024 1 7 0 0) = 7 \<and>
   map_sum id (\<lambda>c. validate c (at_minute 2024 1 7 0 0)) (parse ''0 0 1,15 * 0'') = Inr False \<and>
   map_sum id (\<lambda>c. validate c (at_minute 2024 1 7 0 0)) (parse ''0 0 1,15 * sun'') = Inr False \<and>
   map_sum id (\<lambda>c. validate c (at_minute 2024 1 7 0 0)) (parse ''0 0 1,15 * 7'') = Inr True \<and>
   map_sum id
     (\<lambda>c. (validate c (at_minute 2024 1 1 0 0), validate c (at_minute 2024 1 8 0 0),
            validate c (at_minute 2024 1 2 0 0)))
     (parse ''0 0 1,15 * 1'') = Inr (True, True, False)"
  by code_simp

text \<open>
  C6. The specification states: \<^verbatim>\<open>parse\<close> accepts a text without alias only when it has exactly five
  fields, and fails on an unknown alias, a wrong number of fields or a malformed field.
  The code reads the fields 0 to 4 and nothing else: a sixth field is ignored, and an
  empty step or an empty range end is taken as absent, so \<^verbatim>\<open>5/\<close> and \<^verbatim>\<open>7-\<close> are
  accepted.
\<close>

theorem parse_six_fields_accepted:
  "\<not> startswith_at (strip ''0 0 * * * 9'') \<and> length (split (strip ''0 0 * * * 9'')) = 6 \<and>
   map_sum id parsed_from (parse ''0 0 * * * 9'') = Inr (Some ''0 0 * * * 9'') \<and>
   map_sum id minute (parse ''5/ 7- * * *'') = Inr [5] \<and>
   map_sum id hour (parse ''5/ 7- * * *'') = Inr [7]"
  by code_simp

text \<open>
  C6, amended. A text without alias that \<^verbatim>\<open>parse\<close> accepts has at least five fields, and
  the CronSpec returned is complete: extended sets, flags and the source text are set.
  \<^verbatim>\<open>parse\<close> raises, and returns no CronSpec, when the text starts with \<^verbatim>\<open>@\<close> and is not
  a known alias (\<^verbatim>\<open>KeyError\<close>), when it has fewer than five fields (\<^verbatim>\<open>IndexError\<close>), and
  when one of the first five fields is malformed (\<^verbatim>\<open>ValueError\<close>); the day-of-week field
  is read in lower case with the day names replaced. A field is malformed, and
  \<^verbatim>\<open>expand_valid\<close> raises \<^verbatim>\<open>ValueError\<close> on it, exactly when one of its comma-separated
  parts has a start, a non-empty end or a non-empty step that \<^verbatim>\<open>int()\<close> rejects, or a
  step of zero.
\<close>

theorem parse_failures:
  "(parse s = Inr c \<and> \<not> startswith_at (strip s) \<longrightarrow> 5 \<le> length (split (strip s))) \<and>
   (parse s = Inr c \<longrightarrow> ext_inv c \<and> flags_len c \<and> parsed_from c = Some s) \<and>
   (startswith_at (strip s) \<and> named_spec (strip s) = None \<longrightarrow> parse s = Inl KeyError) \<and>
   (\<not> startswith_at (strip s) \<and> length (split (strip s)) < 5 \<longrightarrow> parse s = Inl IndexError) \<and>
   (\<not> startswith_at (strip s) \<and> 5 \<le> length (split (strip s)) \<and>
      (malformed_field (split (strip s) ! 0) 0 59 \<or>
       malformed_field (split (strip s) ! 1) 0 23 \<or>
       malformed_field (split (strip s) ! 2) 1 31 \<or>
       malformed_field (split (strip s) ! 3) 1 12 \<or>
       malformed_field (replace_weekdays (lower (split (strip s) ! 4))) 0 7) \<longrightarrow>
      parse s = Inl ValueError) \<and>
   (expand_valid f lo hi = Inl e \<longleftrightarrow> e = ValueError \<and> malformed_field f lo hi)"
proof (intro conjI impI)
  assume "parse s = Inr c \<and> \<not> startswith_at (strip s)"
  then show "5 \<le> length (split (strip s))"
    using parse_Inr[of s c] by auto
next
  assume p: "parse s = Inr c"
  from parse_Inr[OF p] init_fields show "ext_inv c" "flags_len c" "parsed_from c = Some s"
    by blast+
next
  assume "startswith_at (strip s) \<and> named_spec (strip s) = None"
  then show "parse s = Inl KeyError" by (simp add: parse_def)
next
  assume h: "\<not> startswith_at (strip s) \<and> length (split (strip s)) < 5"
  then have "getitem (split (strip s)) 4 = Inl IndexError"
    by (intro getitem_short) simp_all
  with h show "parse s = Inl IndexError" by (simp add: parse_def)
next
  assume "\<not> startswith_at (strip s) \<and> 5 \<le> length (split (strip s)) \<and>
      (malformed_field (split (strip s) ! 0) 0 59 \<or>
       malformed_field (split (strip s) ! 1) 0 23 \<or>
       malformed_field (split (strip s) ! 2) 1 31 \<or>
       malformed_field (split (strip s) ! 3) 1 12 \<or>
       malformed_field (replace_weekdays (lower (split (strip s) ! 4))) 0 7)"
  then show "parse s = Inl ValueError"
    using parse_malformed[of s] by blast
next
  show "expand_valid f lo hi = Inl e \<longleftrightarrow> e = ValueError \<and> malformed_field f lo hi"
    by (rule expand_valid_Inl)
qed

theorem parse_failures_witness:
  "(\<exists>c. parse ''0 0 * * * 9'' = Inr c \<and> \<not> startswith_at (strip ''0 0 * * * 9'') \<and>
        5 \<le> length (split (strip ''0 0 * * * 9'')) \<and> parsed_from c = Some ''0 0 * * * 9'') \<and>
   startswith_at (strip ''@never'') \<and> named_spec (strip ''@never'') = None \<and>
   parse ''@never'' = Inl KeyError \<and>
   length (split (strip ''0 0 * *'')) < 5 \<and> parse ''0 0 * *'' = Inl IndexError \<and>
   length (split (strip (''0 0 1 1'' @ [char_of (160 :: nat)] @ ''3''))) = 5 \<and>
   malformed_field (split (strip ''0 x * * *'') ! 1) 0 23 \<and> parse ''0 x * * *'' = Inl ValueError \<and>
   malformed_field (split (strip ''*/0 * * * *'') ! 0) 0 59 \<and>
   parse ''*/0 * * * *'' = Inl ValueError \<and>
   expand_valid ''1-2-3'' 0 59 = Inl ValueError"
proof -
  have "case parse ''0 0 * * * 9'' of Inl e \<Rightarrow> False | Inr c \<Rightarrow> True"
    by code_simp
  then obtain c where c: "parse ''0 0 * * * 9'' = Inr c"
    by (auto split: sum.splits)
  have n1: "\<not> startswith_at (strip ''0 0 * * * 9'')" by code_simp
  from parse_failures[of "''0 0 * * * 9''" c] c n1
  have a: "5 \<le> length (split (strip ''0 0 * * * 9''))" "parsed_from c = Some ''0 0 * * * 9''"
    by blast+
  have k: "startswith_at (strip ''@never'')" "named_spec (strip ''@never'') = None"
    by code_simp+
  from parse_failures[of "''@never''"] k have b: "parse ''@never'' = Inl KeyError" by blast
  have i: "\<not> startswith_at (strip ''0 0 * *'')" "length (split (strip ''0 0 * *'')) < 5"
    by code_simp+
  from parse_failures[of "''0 0 * *''"] i have d: "parse ''0 0 * *'' = Inl IndexError" by blast
  have u: "length (split (strip (''0 0 1 1'' @ [char_of (160 :: nat)] @ ''3''))) = 5"
    by code_simp
  have v: "\<not> startswith_at (strip ''0 x * * *'')" "5 \<le> length (split (strip ''0 x * * *''))"
    "malformed_field (split (strip ''0 x * * *'') ! 1) 0 23"
    by code_simp+
  from parse_failures[of "''0 x * * *''"] v have f: "parse ''0 x * * *'' = Inl ValueError"
    by blast
  have z: "\<not> startswith_at (strip ''*/0 * * * *'')" "5 \<le> length (split (strip ''*/0 * * * *''))"
    "malformed_field (split (strip ''*/0 * * * *'') ! 0) 0 59"
    by code_simp+
  from parse_failures[of "''*/0 * * * *''"] z have g: "parse ''*/0 * * * *'' = Inl ValueError"
    by blast
  have m: "malformed_field ''1-2-3'' 0 59" by code_simp
  from parse_failures[of _ _ "''1-2-3''" 0 59 ValueError] m
  have x: "expand_valid ''1-2-3'' 0 59 = Inl ValueError" by blast
  from c n1 a k b i d u v f z g x show ?thesis by blast
qed

text \<open>
  C7. The specification states: \<^verbatim>\<open>expand_valid\<close> fails on a value outside \<open>[min, max]\<close>, and every value
  it returns lies within the bounds. The code does not keep it: the bounds are only used
  to spell out a star, and no value is compared with them. The field \<^verbatim>\<open>99\<close> expands to
  \<open>[99]\<close> for a minute, and a negative step reaches below zero.
\<close>

theorem expand_valid_out_of_bounds:
  "expand_valid ''99'' 0 59 = Inr [99] \<and>
   expand_valid ''5--4/-1'' 0 59 = Inr [- 2, - 1, 0, 1, 2, 3, 4, 5] \<and>
   expand_valid ''x'' 0 59 = Inl ValueError"
  by code_simp

text \<open>
  C8. Round trip: the string conversion of the CronSpec parsed from a text is that text,
  character for character. It holds for every text that \<^verbatim>\<open>parse\<close> accepts, because the
  constructor stores the text after \<^verbatim>\<open>setup\<close> has run.
\<close>

theorem str_parse_roundtrip:
  "parse x = Inr c \<Longrightarrow> str_spec c = Inr x"
  using parse_parsed_from[of x c] by (simp add: str_spec_def)

theorem str_parse_roundtrip_witness:
  "\<exists>c. parse ''*/15 9-17 1,15 * mon-fri'' = Inr c \<and> str_spec c = Inr ''*/15 9-17 1,15 * mon-fri''"
proof -
  have "case parse ''*/15 9-17 1,15 * mon-fri'' of Inl e \<Rightarrow> False | Inr c \<Rightarrow> True"
    by code_simp
  then obtain c where c: "parse ''*/15 9-17 1,15 * mon-fri'' = Inr c"
    by (auto split: sum.splits)
  from str_parse_roundtrip[OF c] c show ?thesis by blast
qed

text \<open>
  C9. The specification states: \<^verbatim>\<open>is_dow_restricted\<close> is true exactly when the day-of-week
  set does not cover its domain, that is when the field was not equivalent to a star. The
  flag is computed as \<^verbatim>\<open>len(dow) < 7\<close>, which misses a set of seven values that lacks a
  day: \<^verbatim>\<open>0-5,7\<close> has no Saturday and the flag is false. \<^verbatim>\<open>next_valid_date\<close> then leaves
  the weekday out and returns Saturday 2024-01-06 00:00 from the minute before, a date
  that \<^verbatim>\<open>validate\<close> rejects.
\<close>

theorem dow_flag_misses_saturday:
  "map_sum id (\<lambda>c. (is_dow_restricted c, dow c)) (parse ''* * * * 0-5,7'')
     = Inr (False, [0, 1, 2, 3, 4, 5, 7]) \<and>
   (case parse ''* * * * 0-5,7'' of
      Inl e \<Rightarrow> Inl e
    | Inr c \<Rightarrow>
        (case next_valid_date c (at_minute 2024 1 5 23 59) of
           Inl e \<Rightarrow> Inl e
         | Inr n \<Rightarrow> Inr (n, isoweekday n, validate c n)))
     = Inr (at_minute 2024 1 6 0 0, 6, False)"
  by code_simp

text \<open>
  C10. \<^verbatim>\<open>replace\<close> works on a copy at a new address: every object that the store held,
  the receiver among them, is what it was, whether \<^verbatim>\<open>setup\<close> raises or not. When
  \<^verbatim>\<open>replace\<close> returns, the new object differs from the receiver, every field passed as
  \<^verbatim>\<open>None\<close> has the receiver's value (value set, extended set and flag), its source text
  is cleared, and its string conversion is the text rendered from its value sets.
\<close>

theorem replace_frame:
  assumes "a < length st" and "replace st a m h d mo w = (st', r)"
  shows "(\<forall>b. b < length st \<longrightarrow> st' ! b = st ! b) \<and>
     (\<forall>a'. r = Inr a' \<longrightarrow>
        a' \<noteq> a \<and> a' = length st \<and> a' < length st' \<and>
        (m = None \<longrightarrow> minute (st' ! a') = minute (st ! a) \<and> minute_e (st' ! a') = minute_e (st ! a)) \<and>
        (h = None \<longrightarrow> hour (st' ! a') = hour (st ! a) \<and> hour_e (st' ! a') = hour_e (st ! a)) \<and>
        (d = None \<longrightarrow> dom (st' ! a') = dom (st ! a) \<and>
           is_dom_restricted (st' ! a') = is_dom_restricted (st ! a)) \<and>
        (mo = None \<longrightarrow> month (st' ! a') = month (st ! a) \<and> month_e (st' ! a') = month_e (st ! a)) \<and>
        (w = None \<longrightarrow> dow (st' ! a') = dow (st ! a) \<and> dow_e (st' ! a') = dow_e (st ! a) \<and>
           is_dow_restricted (st' ! a') = is_dow_restricted (st ! a)) \<and>
        parsed_from (st' ! a') = None \<and>
        str_spec (st' ! a') = format_fields (st' ! a'))"
proof -
  from replace_result[OF assms(2)] obtain c2 e2 where
    r: "setup_spec (st ! a) m h d mo w = (c2, e2)" "st' = st @ [c2]"
       "r = (case e2 of Some x \<Rightarrow> Inl x | None \<Rightarrow> Inr (length st))"
    by blast
  have old: "\<forall>b. b < length st \<longrightarrow> st' ! b = st ! b"
    by (simp add: r(2) nth_append)
  have new: "a' \<noteq> a \<and> a' = length st \<and> a' < length st' \<and>
        (m = None \<longrightarrow> minute (st' ! a') = minute (st ! a) \<and> minute_e (st' ! a') = minute_e (st ! a)) \<and>
        (h = None \<longrightarrow> hour (st' ! a') = hour (st ! a) \<and> hour_e (st' ! a') = hour_e (st ! a)) \<and>
        (d = None \<longrightarrow> dom (st' ! a') = dom (st ! a) \<and>
           is_dom_restricted (st' ! a') = is_dom_restricted (st ! a)) \<and>
        (mo = None \<longrightarrow> month (st' ! a') = month (st ! a) \<and> month_e (st' ! a') = month_e (st ! a)) \<and>
        (w = None \<longrightarrow> dow (st' ! a') = dow (st ! a) \<and> dow_e (st' ! a') = dow_e (st ! a) \<and>
           is_dow_restricted (st' ! a') = is_dow_restricted (st ! a)) \<and>
        parsed_from (st' ! a') = None \<and>
        str_spec (st' ! a') = format_fields (st' ! a')" if ok: "r = Inr a'" for a'
  proof -
    from ok r(3) have e2: "e2 = None" and a': "a' = length st"
      by (cases e2; simp)+
    have c2: "st' ! a' = c2" by (simp add: r(2) a')
    note f = setup_spec_frame[OF r(1)[unfolded e2]]
    from f have "str_spec c2 = format_fields c2" by (simp add: str_spec_def)
    with f show ?thesis using assms(1) by (simp add: c2 a' r(2))
  qed
  from old new show ?thesis by blast
qed

theorem replace_frame_witness:
  "\<exists>c st' a'. parse ''*/15 0 1 1 *'' = Inr c \<and>
     replace [c] 0 None (Some [5]) None None None = (st', Inr a') \<and>
     st' ! 0 = c \<and> str_spec (st' ! 0) = Inr ''*/15 0 1 1 *'' \<and> a' = 1 \<and>
     minute (st' ! a') = minute c \<and> hour (st' ! a') = [5] \<and> parsed_from (st' ! a') = None \<and>
     str_spec (st' ! a') = Inr ''0,15,30,45 5 1 1 *''"
proof -
  have "case parse ''*/15 0 1 1 *'' of Inl e \<Rightarrow> False
        | Inr c \<Rightarrow> (case replace [c] 0 None (Some [5]) None None None of
            (st', r) \<Rightarrow> r = Inr 1 \<and> hour (st' ! 1) = [5] \<and>
               format_fields (st' ! 1) = Inr ''0,15,30,45 5 1 1 *'')"
    by code_simp
  then obtain c st' where c: "parse ''*/15 0 1 1 *'' = Inr c"
    and r: "replace [c] 0 None (Some [5]) None None None = (st', Inr 1)"
    and v: "hour (st' ! 1) = [5]" "format_fields (st' ! 1) = Inr ''0,15,30,45 5 1 1 *''"
    by (auto split: sum.splits prod.splits)
  have l: "0 < length [c]" by simp
  from replace_frame[OF l r]
  have "st' ! 0 = c" "minute (st' ! 1) = minute c" "parsed_from (st' ! 1) = None"
    "str_spec (st' ! 1) = format_fields (st' ! 1)"
    by simp_all
  moreover have "str_spec c = Inr ''*/15 0 1 1 *''"
    using parse_parsed_from[OF c] by (simp add: str_spec_def)
  ultimately show ?thesis using c r v by auto
qed

end
